theory Spec2Isabelle
  imports Complex_Main "HOL-Library.Multiset"
begin

section \<open>The tree-sequence data read by \<open>count_transitions\<close>\<close>

text \<open>
  The notebook helper \<open>count_transitions(ts, alleles)\<close> reads a tskit tree sequence only
  through \<open>ts.sites()\<close>, the fields \<open>ancestral_state\<close> and \<open>mutations\<close> of a site, the
  fields \<open>derived_state\<close> and \<open>parent\<close> of a mutation, and \<open>ts.mutation(id)\<close>, which reads
  a row of the mutation table. The model keeps exactly these.

  A mutation's \<open>parent\<close> is the id of another mutation, or \<open>tskit.NULL\<close>, which is \<open>-1\<close>.
\<close>

record mutation =
  derived_state :: string
  parent :: int

record site =
  ancestral_state :: string
  mutations :: "mutation list"

record tree_sequence =
  sites :: "site list"
  mutation_table :: "mutation list"

definition NULL :: int where
  "NULL = -1"

text \<open>
  Exceptions of the Python code. \<open>ValueError\<close> is what \<open>list.index\<close> raises for a value
  that is not in the list (the specification calls it \<open>UnknownAlleleError\<close>);
  \<open>IndexError\<close> stands for the failure of \<open>ts.mutation(id)\<close> on an id that is not a row of
  the mutation table; \<open>ZeroDivisionError\<close> is raised by \<open>/\<close>.
\<close>

datatype error = ValueError | IndexError | ZeroDivisionError

definition mutation :: "tree_sequence \<Rightarrow> int \<Rightarrow> error + mutation" where
  "mutation ts i =
     (if 0 \<le> i \<and> i < int (length (mutation_table ts))
      then Inr (mutation_table ts ! nat i) else Inl IndexError)"

text \<open>Python's \<open>list.index\<close>: the position of the first element equal to \<open>x\<close>.\<close>

fun index :: "'a list \<Rightarrow> 'a \<Rightarrow> error + nat" where
  "index [] x = Inl ValueError"
| "index (y # ys) x =
     (if y = x then Inr 0
      else (case index ys x of Inl e \<Rightarrow> Inl e | Inr i \<Rightarrow> Inr (Suc i)))"

section \<open>The count matrix\<close>

text \<open>
  \<open>np.zeros((k, k), dtype='int')\<close> is a \<open>k \<times> k\<close> array of 64-bit integers. A cell is
  incremented once for each mutation, and tskit numbers mutations with 32-bit ids, so a
  cell stays far below \<open>2^63\<close>; the cells are modelled as unbounded integers.
\<close>

type_synonym matrix = "int list list"

definition zeros :: "nat \<Rightarrow> matrix" where
  "zeros k = replicate k (replicate k 0)"

text \<open>\<open>counts[i, j] += 1\<close>\<close>

definition incr :: "matrix \<Rightarrow> nat \<Rightarrow> nat \<Rightarrow> matrix" where
  "incr counts i j = counts[i := (counts ! i)[j := counts ! i ! j + 1]]"

text \<open>
  The state that precedes a mutation: \<open>pa = aa\<close>, overwritten by
  \<open>ts.mutation(m.parent).derived_state\<close> when \<open>m.parent != tskit.NULL\<close>.
\<close>

definition parent_state :: "tree_sequence \<Rightarrow> string \<Rightarrow> mutation \<Rightarrow> error + string" where
  "parent_state ts aa m =
     (if parent m \<noteq> NULL
      then (case mutation ts (parent m) of Inl e \<Rightarrow> Inl e | Inr p \<Rightarrow> Inr (derived_state p))
      else Inr aa)"

text \<open>
  The inner loop \<open>for m in s.mutations\<close>. In \<open>counts[alleles.index(pa), alleles.index(da)] += 1\<close>
  the two indices are computed left to right before the cell is written.
\<close>

fun count_mutations ::
  "tree_sequence \<Rightarrow> string list \<Rightarrow> string \<Rightarrow> mutation list \<Rightarrow> matrix \<Rightarrow> error + matrix" where
  "count_mutations ts alleles aa [] counts = Inr counts"
| "count_mutations ts alleles aa (m # ms) counts =
     (case parent_state ts aa m of
        Inl e \<Rightarrow> Inl e
      | Inr pa \<Rightarrow>
          (case index alleles pa of
             Inl e \<Rightarrow> Inl e
           | Inr i \<Rightarrow>
               (case index alleles (derived_state m) of
                  Inl e \<Rightarrow> Inl e
                | Inr j \<Rightarrow> count_mutations ts alleles aa ms (incr counts i j))))"

text \<open>The outer loop \<open>for s in ts.sites()\<close>, over the sites still to visit.\<close>

fun count_sites ::
  "tree_sequence \<Rightarrow> string list \<Rightarrow> site list \<Rightarrow> matrix \<Rightarrow> error + matrix" where
  "count_sites ts alleles [] counts = Inr counts"
| "count_sites ts alleles (s # ss) counts =
     (case count_mutations ts alleles (ancestral_state s) (mutations s) counts of
        Inl e \<Rightarrow> Inl e
      | Inr counts' \<Rightarrow> count_sites ts alleles ss counts')"

text \<open>
  The value of the local array \<open>counts\<close> when both loops have ended. The source function
  does not return this array: it prints it (see \<open>count_transitions\<close> below). The claims about
  the count matrix are stated about this value.
\<close>

definition count_matrix :: "tree_sequence \<Rightarrow> string list \<Rightarrow> error + matrix" where
  "count_matrix ts alleles = count_sites ts alleles (sites ts) (zeros (length alleles))"

section \<open>Printing the table\<close>

text \<open>
  After the loops the function prints a header line and one line for each allele, and
  returns nothing:
  \<^verbatim>\<open>
    print("\t", "\t".join(alleles))
    for j, a in enumerate(alleles):
        print(f"{a}\t", "\t".join(map(str, counts[j])))
  \<close>
  Standard output is modelled as the text written so far. \<open>print(x, y)\<close> writes the two
  strings with one space between them and a newline after them.
\<close>

definition tab :: string where
  "tab = [CHR 0x09]"

definition newline :: string where
  "newline = [CHR 0x0A]"

fun join :: "string \<Rightarrow> string list \<Rightarrow> string" where
  "join sep [] = []"
| "join sep [x] = x"
| "join sep (x # y # ys) = x @ sep @ join sep (y # ys)"

definition digit :: "nat \<Rightarrow> char" where
  "digit d = ''0123456789'' ! d"

function str_nat :: "nat \<Rightarrow> string" where
  "str_nat n = (if n < 10 then [digit n] else str_nat (n div 10) @ [digit (n mod 10)])"
  by pat_completeness auto
termination
  by (relation "measure id") auto

declare str_nat.simps [simp del]

text \<open>\<open>str\<close> of an integer: its decimal digits, after a minus sign when it is negative.\<close>

definition str :: "int \<Rightarrow> string" where
  "str i = (if i < 0 then ''-'' @ str_nat (nat (- i)) else str_nat (nat i))"

definition print :: "string \<Rightarrow> string \<Rightarrow> string \<Rightarrow> string" where
  "print out x y = out @ x @ '' '' @ y @ newline"

fun print_rows :: "matrix \<Rightarrow> (nat \<times> string) list \<Rightarrow> string \<Rightarrow> string" where
  "print_rows counts [] out = out"
| "print_rows counts ((j, a) # rest) out =
     print_rows counts rest (print out (a @ tab) (join tab (map str (counts ! j))))"

text \<open>
  The objects that a call can reach: the tree sequence and the list of alleles that it is
  given, and standard output.
\<close>

record world =
  ts_object :: tree_sequence
  alleles_object :: "string list"
  stdout :: string

text \<open>
  The whole function: from the world before the call to the outcome of the call and the
  world after it. The outcome is an exception or the value returned; the function has no
  \<open>return\<close> statement, so the value is \<open>None\<close>, where a returned matrix would be \<open>Some\<close> of
  it. An exception of the loops leaves the function before anything is printed.
\<close>

definition count_transitions :: "world \<Rightarrow> (error + matrix option) \<times> world" where
  "count_transitions w =
     (let ts = ts_object w; alleles = alleles_object w in
      case count_matrix ts alleles of
        Inl e \<Rightarrow> (Inl e, w)
      | Inr counts \<Rightarrow>
          (Inr None,
           w\<lparr>stdout := print_rows counts (enumerate 0 alleles)
                          (print (stdout w) tab (join tab alleles))\<rparr>))"

text \<open>
  The table that is to be printed, line by line: a header line with a tab, a space and
  the alleles separated by tabs; then, for each allele in order, a line with the allele, a
  tab, a space and the entries of its row of the matrix, in decimal, separated by tabs.
  Every line ends with a newline.
\<close>

definition header_line :: "string list \<Rightarrow> string" where
  "header_line alleles = tab @ '' '' @ join tab alleles"

definition row_line :: "string list \<Rightarrow> matrix \<Rightarrow> nat \<Rightarrow> string" where
  "row_line alleles counts j = alleles ! j @ tab @ '' '' @ join tab (map str (counts ! j))"

definition count_table :: "string list \<Rightarrow> matrix \<Rightarrow> string" where
  "count_table alleles counts =
     concat (map (\<lambda>line. line @ newline)
       (header_line alleles # map (row_line alleles counts) [0..<length alleles]))"

section \<open>Nearest-neighbour populations\<close>

text \<open>
  \<open>find_nearest_neighbour_populations(t, focal_sample)\<close> reads a tskit tree through
  \<open>t.parent(u)\<close>, which is \<open>-1\<close> for a node without parent, and \<open>t.leaves(u=p)\<close>, the
  leaves below \<open>p\<close>; it reads the population of a node from the global tree sequence,
  \<open>ts_dated.node(c).population\<close>, which is the parameter \<open>population\<close> here.

  The dictionary \<open>pop_proportions\<close> that the function fills is never read and is left
  out. Python's \<open>/\<close> on integers gives a float; the quotient is modelled as the exact
  rational number, and the division by zero as its exception.
\<close>

record tree =
  tree_parent :: "int \<Rightarrow> int"
  leaves :: "int \<Rightarrow> int list"

definition find_nearest_neighbour_populations ::
  "(int \<Rightarrow> int) \<Rightarrow> tree \<Rightarrow> int \<Rightarrow> error + rat \<times> rat" where
  "find_nearest_neighbour_populations population t focal_sample =
     (let p = tree_parent t focal_sample in
      if p = -1 then Inr (0, 0)
      else
        let children = filter (\<lambda>c. c \<noteq> focal_sample) (leaves t p);
            relative_populations = map population children;
            count_pop_0 = int (length (filter (\<lambda>pop. pop = 0) relative_populations));
            count_pop_1 = int (length relative_populations) - count_pop_0
        in if length relative_populations = 0 then Inl ZeroDivisionError
           else Inr (of_int count_pop_0 / of_nat (length relative_populations),
                     of_int count_pop_1 / of_nat (length relative_populations)))"

section \<open>What the specification says of the count matrix\<close>

text \<open>
  The effective parent state of a mutation: the ancestral state of its site when the
  mutation has no parent, the derived state of the parent mutation otherwise.
\<close>

definition effective_parent_state :: "tree_sequence \<Rightarrow> site \<Rightarrow> mutation \<Rightarrow> string" where
  "effective_parent_state ts s m =
     (if parent m = NULL then ancestral_state s
      else derived_state (mutation_table ts ! nat (parent m)))"

text \<open>
  The number of mutations, over all sites, whose effective parent state is \<open>a\<close> and whose
  derived state is \<open>b\<close>.
\<close>

definition transition_count :: "tree_sequence \<Rightarrow> string \<Rightarrow> string \<Rightarrow> nat" where
  "transition_count ts a b =
     sum_list (map (\<lambda>s. length (filter (\<lambda>m. effective_parent_state ts s m = a \<and>
                                               derived_state m = b) (mutations s)))
                   (sites ts))"

text \<open>The number of mutations that the loops visit.\<close>

definition num_mutations :: "tree_sequence \<Rightarrow> nat" where
  "num_mutations ts = sum_list (map (\<lambda>s. length (mutations s)) (sites ts))"

text \<open>
  tskit only builds a tree sequence whose mutations have a parent that is \<open>tskit.NULL\<close> or a
  row of the mutation table.
\<close>

definition valid_parent :: "tree_sequence \<Rightarrow> mutation \<Rightarrow> bool" where
  "valid_parent ts m =
     (parent m = NULL \<or> (0 \<le> parent m \<and> parent m < int (length (mutation_table ts))))"

definition valid_parents :: "tree_sequence \<Rightarrow> bool" where
  "valid_parents ts = list_all (\<lambda>s. list_all (valid_parent ts) (mutations s)) (sites ts)"

text \<open>
  The alphabet contains every observed state: the ancestral state of every site, and the
  effective parent state and the derived state of every mutation.
\<close>

definition covers :: "string list \<Rightarrow> tree_sequence \<Rightarrow> bool" where
  "covers alleles ts =
     list_all (\<lambda>s. ancestral_state s \<in> set alleles \<and>
                 list_all (\<lambda>m. effective_parent_state ts s m \<in> set alleles \<and>
                              derived_state m \<in> set alleles) (mutations s)) (sites ts)"

text \<open>Some mutation starts from, or arrives at, a state that is not in the alphabet.\<close>

definition unknown_transition :: "string list \<Rightarrow> tree_sequence \<Rightarrow> bool" where
  "unknown_transition alleles ts =
     list_ex (\<lambda>s. list_ex (\<lambda>m. effective_parent_state ts s m \<notin> set alleles \<or>
                             derived_state m \<notin> set alleles) (mutations s)) (sites ts)"

text \<open>Elementwise sum of two count matrices.\<close>

definition add_matrix :: "matrix \<Rightarrow> matrix \<Rightarrow> matrix" where
  "add_matrix a b = map2 (map2 (+)) a b"

text \<open>
  Two shards of a tree sequence: each site of \<open>ts\<close> is in exactly one of them, and a
  parent id still names the same row of the mutation table.
\<close>

definition shards :: "tree_sequence \<Rightarrow> tree_sequence \<Rightarrow> tree_sequence \<Rightarrow> bool" where
  "shards ts ts1 ts2 =
     (mutation_table ts1 = mutation_table ts \<and> mutation_table ts2 = mutation_table ts \<and>
      mset (sites ts1) + mset (sites ts2) = mset (sites ts))"

text \<open>
  \<open>ts'\<close> yields the sites of \<open>ts\<close> in another order, and the mutations of each site in
  another order, over the same mutation table.
\<close>

definition site_key :: "site \<Rightarrow> string \<times> mutation multiset" where
  "site_key s = (ancestral_state s, mset (mutations s))"

definition reordering :: "tree_sequence \<Rightarrow> tree_sequence \<Rightarrow> bool" where
  "reordering ts ts' =
     (mutation_table ts' = mutation_table ts \<and>
      mset (map site_key (sites ts')) = mset (map site_key (sites ts)))"

section \<open>The mutation model and the validator of the specification\<close>

text \<open>
  Modelled from the spec: the MutationModel of section 3, with its alleles, its root
  distribution and its transition matrix. The repository has no code for it: the notebooks
  pass the three values to \<open>msprime.MatrixMutationModel\<close>, which is not among the sources.
  A probability is a rational number.
\<close>

record mutation_model =
  model_alleles :: "string list"
  root_distribution :: "rat list"
  transition_matrix :: "rat list list"

text \<open>
  Modelled from the spec: the errors of section 7 that model construction and
  validation raise. No code of the repository raises them.
\<close>

datatype model_error = ModelValidationError | DimensionMismatchError

text \<open>
  Modelled from the spec: a list of probabilities "sums to 1 within tolerance 1e-9"
  (section 3). The check is missing with the constructor.
\<close>

definition sums_to_one :: "rat list \<Rightarrow> bool" where
  "sums_to_one ps = (\<bar>sum_list ps - 1\<bar> \<le> 1 / 10 ^ 9)"

text \<open>
  Modelled from the spec: the invariants of a MutationModel in section 3, which the
  missing constructor validates. The alleles, the root distribution, the transition
  matrix and each of its rows have the same length; no probability is negative; every
  row of the transition matrix, and the root distribution, sums to 1 within the tolerance.
\<close>

definition model_invariant :: "mutation_model \<Rightarrow> bool" where
  "model_invariant m =
     (length (root_distribution m) = length (model_alleles m) \<and>
      length (transition_matrix m) = length (model_alleles m) \<and>
      list_all (\<lambda>row. length row = length (model_alleles m)) (transition_matrix m) \<and>
      list_all (\<lambda>p. 0 \<le> p) (root_distribution m) \<and>
      list_all (list_all (\<lambda>p. 0 \<le> p)) (transition_matrix m) \<and>
      list_all sums_to_one (transition_matrix m) \<and>
      sums_to_one (root_distribution m))"

text \<open>
  Modelled from the spec: \<open>MutationModel.construct\<close> of section 4.1, the missing constructor,
  which "fails with ModelValidationError if any invariant in section 3 is violated (length
  mismatch, negative probability, row not summing to 1, root distribution not summing to
  1)". The four checks are made in this order.
\<close>

definition construct ::
  "string list \<Rightarrow> rat list \<Rightarrow> rat list list \<Rightarrow> model_error + mutation_model" where
  "construct alleles root_dist matrix_rows =
     (if length root_dist \<noteq> length alleles \<or> length matrix_rows \<noteq> length alleles \<or>
         list_ex (\<lambda>row. length row \<noteq> length alleles) matrix_rows
      then Inl ModelValidationError
      else if list_ex (\<lambda>p. p < 0) root_dist \<or> list_ex (list_ex (\<lambda>p. p < 0)) matrix_rows
      then Inl ModelValidationError
      else if list_ex (\<lambda>row. \<not> sums_to_one row) matrix_rows
      then Inl ModelValidationError
      else if \<not> sums_to_one root_dist
      then Inl ModelValidationError
      else Inr \<lparr>model_alleles = alleles, root_distribution = root_dist,
                 transition_matrix = matrix_rows\<rparr>)"

text \<open>
  Modelled from the spec: one row of the ConformanceReport of section 4.3, "row index,
  statistic value, pass/fail against tolerance, insufficient_data flag". The repository
  has no validator. A row that is skipped has no statistic and no verdict.
\<close>

record row_report =
  row_index :: nat
  statistic :: "rat option"
  pass :: "bool option"
  insufficient_data :: bool

text \<open>
  Modelled from the spec: the statistic of the missing validator. Of the two that
  section 4.3 allows, this is the maximum absolute deviation between the empirical
  proportions and the row of the transition matrix; a row passes when the deviation is at
  most the tolerance.
\<close>

definition max_abs_deviation :: "rat list \<Rightarrow> rat list \<Rightarrow> rat" where
  "max_abs_deviation proportions probs = fold max (map2 (\<lambda>e p. \<bar>e - p\<bar>) proportions probs) 0"

text \<open>
  Modelled from the spec: the report of one row in the missing
  \<open>Validator.check_conformance\<close>. A row whose total \<open>n\<close> is 0 is skipped and flagged as
  \<open>insufficient_data\<close>; for another row the proportions \<open>counts[i,:] / n\<close> are compared with
  the row of the model.
\<close>

definition check_row :: "rat \<Rightarrow> nat \<Rightarrow> nat list \<Rightarrow> rat list \<Rightarrow> row_report" where
  "check_row tolerance i row probs =
     (let n = sum_list row in
      if n = 0
      then \<lparr>row_index = i, statistic = None, pass = None, insufficient_data = True\<rparr>
      else
        let d = max_abs_deviation (map (\<lambda>c. of_nat c / of_nat n) row) probs
        in \<lparr>row_index = i, statistic = Some d, pass = Some (d \<le> tolerance),
            insufficient_data = False\<rparr>)"

text \<open>
  Modelled from the spec: \<open>Validator.check_conformance\<close> of section 4.3, which is missing
  from the repository. It fails with \<open>DimensionMismatchError\<close> when the count matrix and the
  model have different alphabet sizes, and reports every row otherwise. The counts are
  natural numbers.
\<close>

definition check_conformance ::
  "nat list list \<Rightarrow> mutation_model \<Rightarrow> rat \<Rightarrow> model_error + row_report list" where
  "check_conformance counts model tolerance =
     (let k = length (model_alleles model) in
      if length counts \<noteq> k \<or> list_ex (\<lambda>row. length row \<noteq> k) counts
      then Inl DimensionMismatchError
      else Inr (map (\<lambda>i. check_row tolerance i (counts ! i) (transition_matrix model ! i))
                    [0..<k]))"

section \<open>Concrete inputs\<close>

definition ACGT :: "string list" where
  "ACGT = [''A'', ''C'', ''G'', ''T'']"

text \<open>
  The scenario of the specification. Three sites: ancestral A with one mutation to C;
  ancestral G with a mutation to T and a mutation to A whose parent is the mutation to T
  (row 1 of the table); ancestral C with no mutation.
\<close>

definition scenario_mutations :: "mutation list" where
  "scenario_mutations =
     [\<lparr>derived_state = ''C'', parent = -1\<rparr>,
      \<lparr>derived_state = ''T'', parent = -1\<rparr>,
      \<lparr>derived_state = ''A'', parent = 1\<rparr>]"

definition scenario :: tree_sequence where
  "scenario =
     \<lparr>sites =
        [\<lparr>ancestral_state = ''A'', mutations = [scenario_mutations ! 0]\<rparr>,
         \<lparr>ancestral_state = ''G'', mutations = [scenario_mutations ! 1, scenario_mutations ! 2]\<rparr>,
         \<lparr>ancestral_state = ''C'', mutations = []\<rparr>],
      mutation_table = scenario_mutations\<rparr>"

text \<open>The first and the third site of the scenario, and its second site.\<close>

definition scenario_shard1 :: tree_sequence where
  "scenario_shard1 = scenario\<lparr>sites := [sites scenario ! 0, sites scenario ! 2]\<rparr>"

definition scenario_shard2 :: tree_sequence where
  "scenario_shard2 = scenario\<lparr>sites := [sites scenario ! 1]\<rparr>"

text \<open>The scenario with its sites reversed and the two mutations of the G site swapped.\<close>

definition scenario_reordered :: tree_sequence where
  "scenario_reordered =
     \<lparr>sites =
        [\<lparr>ancestral_state = ''C'', mutations = []\<rparr>,
         \<lparr>ancestral_state = ''G'', mutations = [scenario_mutations ! 2, scenario_mutations ! 1]\<rparr>,
         \<lparr>ancestral_state = ''A'', mutations = [scenario_mutations ! 0]\<rparr>],
      mutation_table = scenario_mutations\<rparr>"

text \<open>One site whose ancestral state is N: without a mutation, and with a mutation to C.\<close>

definition unmutated_N :: tree_sequence where
  "unmutated_N = \<lparr>sites = [\<lparr>ancestral_state = ''N'', mutations = []\<rparr>], mutation_table = []\<rparr>"

definition mutated_N :: tree_sequence where
  "mutated_N =
     \<lparr>sites = [\<lparr>ancestral_state = ''N'', mutations = [\<lparr>derived_state = ''C'', parent = -1\<rparr>]\<rparr>],
      mutation_table = [\<lparr>derived_state = ''C'', parent = -1\<rparr>]\<rparr>"

definition no_sites :: tree_sequence where
  "no_sites = \<lparr>sites = [], mutation_table = []\<rparr>"

text \<open>
  A tree with the leaves 0, 1 and 2 below the root 3; node 1 is in population 0, the
  others in population 1.
\<close>

text \<open>
  Worlds for the calls: no site and the single allele A, with nothing printed before;
  the scenario, and the mutated N site, each with A, C, G, T and some text printed before.
\<close>

definition no_sites_world :: world where
  "no_sites_world = \<lparr>ts_object = no_sites, alleles_object = [''A''], stdout = []\<rparr>"

definition scenario_world :: world where
  "scenario_world = \<lparr>ts_object = scenario, alleles_object = ACGT, stdout = ''before''\<rparr>"

definition mutated_N_world :: world where
  "mutated_N_world = \<lparr>ts_object = mutated_N, alleles_object = ACGT, stdout = ''before''\<rparr>"

definition cherry :: tree where
  "cherry = \<lparr>tree_parent = (\<lambda>u. if u = 0 \<or> u = 1 \<or> u = 2 then 3 else -1),
             leaves = (\<lambda>u. if u = 3 then [0, 1, 2] else [u])\<rparr>"

definition cherry_population :: "int \<Rightarrow> int" where
  "cherry_population u = (if u = 1 then 0 else 1)"

text \<open>
  The model of the scenario: four alleles, a uniform root distribution, and a transition
  matrix with 0 on the diagonal and 1/3 elsewhere; and the count matrix of the scenario.
\<close>

definition jukes_cantor :: mutation_model where
  "jukes_cantor =
     \<lparr>model_alleles = ACGT,
      root_distribution = [1/4, 1/4, 1/4, 1/4],
      transition_matrix =
        [[0, 1/3, 1/3, 1/3],
         [1/3, 0, 1/3, 1/3],
         [1/3, 1/3, 0, 1/3],
         [1/3, 1/3, 1/3, 0]]\<rparr>"

definition scenario_counts :: "nat list list" where
  "scenario_counts = [[0, 1, 0, 0], [0, 0, 0, 0], [0, 0, 0, 1], [1, 0, 0, 0]]"

section \<open>The loops as a tally of cells\<close>

text \<open>
  For the proofs the loops are split in two: the cell that one mutation increments (or
  the exception it raises), and the tally of a list of such cells.
\<close>

definition cell :: "tree_sequence \<Rightarrow> string list \<Rightarrow> string \<Rightarrow> mutation \<Rightarrow> error + nat \<times> nat" where
  "cell ts alleles aa m =
     (case parent_state ts aa m of
        Inl e \<Rightarrow> Inl e
      | Inr pa \<Rightarrow>
          (case index alleles pa of
             Inl e \<Rightarrow> Inl e
           | Inr i \<Rightarrow>
               (case index alleles (derived_state m) of
                  Inl e \<Rightarrow> Inl e
                | Inr j \<Rightarrow> Inr (i, j))))"

fun tally :: "(error + nat \<times> nat) list \<Rightarrow> matrix \<Rightarrow> error + matrix" where
  "tally [] counts = Inr counts"
| "tally (Inl e # xs) counts = Inl e"
| "tally (Inr (i, j) # xs) counts = tally xs (incr counts i j)"

definition site_cells :: "tree_sequence \<Rightarrow> string list \<Rightarrow> site \<Rightarrow> (error + nat \<times> nat) list" where
  "site_cells ts alleles s = map (cell ts alleles (ancestral_state s)) (mutations s)"

definition cells :: "tree_sequence \<Rightarrow> string list \<Rightarrow> site list \<Rightarrow> (error + nat \<times> nat) list" where
  "cells ts alleles ss = concat (map (site_cells ts alleles) ss)"

definition square :: "nat \<Rightarrow> matrix \<Rightarrow> bool" where
  "square k counts = (length counts = k \<and> list_all (\<lambda>row. length row = k) counts)"

definition total :: "matrix \<Rightarrow> int" where
  "total counts = sum_list (map sum_list counts)"

section \<open>Lemmas\<close>

subsection \<open>\<open>list.index\<close>\<close>

lemma index_Inr: "index xs x = Inr i \<Longrightarrow> i < length xs \<and> xs ! i = x"
  by (induction xs arbitrary: i) (auto split: if_splits sum.splits)

lemma index_Inl: "index xs x = Inl e \<Longrightarrow> e = ValueError \<and> x \<notin> set xs"
  by (induction xs) (auto split: if_splits sum.splits)

lemma index_member: "x \<in> set xs \<Longrightarrow> \<exists>i. index xs x = Inr i"
  by (cases "index xs x") (auto dest: index_Inl)

lemma index_nth: "distinct xs \<Longrightarrow> i < length xs \<Longrightarrow> index xs (xs ! i) = Inr i"
proof (induction xs arbitrary: i)
  case Nil
  then show ?case by simp
next
  case (Cons y ys)
  show ?case
  proof (cases i)
    case 0
    then show ?thesis by simp
  next
    case (Suc n)
    with Cons.prems have "ys ! n \<noteq> y" "index ys (ys ! n) = Inr n"
      using Cons.IH [of n] by auto
    with Suc show ?thesis by auto
  qed
qed

subsection \<open>The loops are a tally\<close>

lemma count_mutations_tally:
  "count_mutations ts alleles aa ms counts = tally (map (cell ts alleles aa) ms) counts"
  by (induction ms arbitrary: counts) (auto simp: cell_def split: sum.splits)

lemma tally_append:
  "tally (xs @ ys) counts =
     (case tally xs counts of Inl e \<Rightarrow> Inl e | Inr counts' \<Rightarrow> tally ys counts')"
  by (induction xs counts rule: tally.induct) auto

lemma count_sites_tally:
  "count_sites ts alleles ss counts = tally (cells ts alleles ss) counts"
  by (induction ss arbitrary: counts)
    (auto simp: cells_def site_cells_def count_mutations_tally tally_append split: sum.splits)

lemma square_zeros: "square k (zeros k)"
  by (simp add: square_def zeros_def list_all_iff)

lemma square_incr: "square k counts \<Longrightarrow> square k (incr counts i j)"
proof (cases "i < length counts")
  case True
  assume "square k counts"
  with True show ?thesis
    by (auto simp: square_def incr_def list_all_length nth_list_update)
next
  case False
  assume "square k counts"
  with False show ?thesis
    by (simp add: incr_def list_update_beyond)
qed

lemma incr_nth:
  "square k counts \<Longrightarrow> i < k \<Longrightarrow> j < k \<Longrightarrow>
   incr counts a b ! i ! j = counts ! i ! j + (if a = i \<and> b = j then 1 else 0)"
proof (cases "a = i")
  case True
  assume "square k counts" "i < k" "j < k"
  with True show ?thesis
    by (auto simp: square_def incr_def list_all_length nth_list_update)
next
  case False
  then show ?thesis
    by (simp add: incr_def nth_list_update)
qed

lemma tally_square: "tally xs counts = Inr counts' \<Longrightarrow> square k counts \<Longrightarrow> square k counts'"
  by (induction xs counts rule: tally.induct) (auto simp: square_incr)

lemma tally_nth:
  "tally xs counts = Inr counts' \<Longrightarrow> square k counts \<Longrightarrow> i < k \<Longrightarrow> j < k \<Longrightarrow>
   counts' ! i ! j = counts ! i ! j + int (count_list xs (Inr (i, j)))"
  by (induction xs counts rule: tally.induct) (auto simp: square_incr incr_nth)

lemma tally_Inl: "tally xs counts = Inl e \<Longrightarrow> Inl e \<in> set xs"
  by (induction xs counts rule: tally.induct) auto

lemma tally_Inr: "tally xs counts = Inr counts' \<Longrightarrow> list_all (\<lambda>x. \<not> isl x) xs"
  by (induction xs counts rule: tally.induct) auto

lemma tally_succeeds: "list_all (\<lambda>x. \<not> isl x) xs \<Longrightarrow> \<exists>counts'. tally xs counts = Inr counts'"
  by (induction xs counts rule: tally.induct) auto

subsection \<open>The cell of a mutation\<close>

lemma index_Inr_mem: "index xs x = Inr i \<Longrightarrow> x \<in> set xs"
  using index_Inr [of xs x i] by auto

lemma parent_state_valid:
  "valid_parent ts m \<Longrightarrow>
   parent_state ts (ancestral_state s) m = Inr (effective_parent_state ts s m)"
  by (auto simp: valid_parent_def parent_state_def effective_parent_state_def mutation_def)

lemma cell_valid:
  "valid_parent ts m \<Longrightarrow>
   cell ts alleles (ancestral_state s) m =
     (case index alleles (effective_parent_state ts s m) of
        Inl e \<Rightarrow> Inl e
      | Inr i \<Rightarrow> (case index alleles (derived_state m) of Inl e \<Rightarrow> Inl e | Inr j \<Rightarrow> Inr (i, j)))"
  by (simp add: cell_def parent_state_valid)

lemma cell_range: "cell ts alleles aa m = Inr (i, j) \<Longrightarrow> i < length alleles \<and> j < length alleles"
  by (auto simp: cell_def split: sum.splits dest: index_Inr)

lemma cell_known:
  assumes "valid_parent ts m"
    and "effective_parent_state ts s m \<in> set alleles" and "derived_state m \<in> set alleles"
  shows "\<not> isl (cell ts alleles (ancestral_state s) m)"
proof -
  from assms(2) obtain i where "index alleles (effective_parent_state ts s m) = Inr i"
    by (auto dest: index_member)
  moreover from assms(3) obtain j where "index alleles (derived_state m) = Inr j"
    by (auto dest: index_member)
  ultimately show ?thesis
    using assms(1) by (simp add: cell_valid)
qed

lemma cell_unknown:
  assumes "valid_parent ts m"
    and "effective_parent_state ts s m \<notin> set alleles \<or> derived_state m \<notin> set alleles"
  shows "\<exists>e. cell ts alleles (ancestral_state s) m = Inl e"
proof (cases "cell ts alleles (ancestral_state s) m")
  case (Inl e)
  then show ?thesis by simp
next
  case (Inr c)
  with assms(1) have "effective_parent_state ts s m \<in> set alleles \<and> derived_state m \<in> set alleles"
    by (auto simp: cell_valid split: sum.splits dest: index_Inr_mem)
  with assms(2) show ?thesis by simp
qed

lemma cell_error:
  assumes "valid_parent ts m" and "cell ts alleles (ancestral_state (s::site)) m = Inl e"
  shows "e = ValueError"
proof -
  from assms have "(case index alleles (effective_parent_state ts s m) of
        Inl e \<Rightarrow> Inl e
      | Inr i \<Rightarrow> (case index alleles (derived_state m) of Inl e \<Rightarrow> Inl e | Inr j \<Rightarrow> Inr (i, j))) = Inl e"
    by (simp add: cell_valid)
  then show ?thesis
    by (auto split: sum.splits dest: index_Inl)
qed

lemma cell_Inr_iff:
  assumes "distinct alleles" and "valid_parent ts m"
    and "i < length alleles" and "j < length alleles"
  shows "cell ts alleles (ancestral_state s) m = Inr (i, j) \<longleftrightarrow>
         effective_parent_state ts s m = alleles ! i \<and> derived_state m = alleles ! j"
  using assms by (auto simp: cell_valid index_nth split: sum.splits dest: index_Inr)

lemma count_list_map: "count_list (map f xs) y = length (filter (\<lambda>x. f x = y) xs)"
  by (induction xs) auto

lemma count_list_concat: "count_list (concat xss) y = sum_list (map (\<lambda>xs. count_list xs y) xss)"
  by (induction xss) auto

lemma count_list_cells:
  assumes "distinct alleles" and "list_all (\<lambda>s. list_all (valid_parent ts) (mutations s)) ss"
    and "i < length alleles" and "j < length alleles"
  shows "count_list (cells ts alleles ss) (Inr (i, j)) =
         sum_list (map (\<lambda>s. length (filter (\<lambda>m. effective_parent_state ts s m = alleles ! i \<and>
                                                 derived_state m = alleles ! j) (mutations s))) ss)"
proof -
  have "length (filter (\<lambda>m. cell ts alleles (ancestral_state s) m = Inr (i, j)) (mutations s)) =
        length (filter (\<lambda>m. effective_parent_state ts s m = alleles ! i \<and>
                             derived_state m = alleles ! j) (mutations s))"
    if "s \<in> set ss" for s
  proof -
    from that assms(2) have "\<forall>m\<in>set (mutations s). valid_parent ts m"
      by (auto simp: list_all_iff)
    then have "filter (\<lambda>m. cell ts alleles (ancestral_state s) m = Inr (i, j)) (mutations s) =
        filter (\<lambda>m. effective_parent_state ts s m = alleles ! i \<and>
                     derived_state m = alleles ! j) (mutations s)"
      using assms(1,3,4) by (intro filter_cong) (auto simp: cell_Inr_iff)
    then show ?thesis by simp
  qed
  then show ?thesis
    by (auto simp: cells_def site_cells_def count_list_concat count_list_map comp_def
        intro!: arg_cong [where f = sum_list])
qed

lemma cells_known:
  assumes "list_all (\<lambda>s. list_all (valid_parent ts) (mutations s)) ss"
    and "list_all (\<lambda>s. list_all (\<lambda>m. effective_parent_state ts s m \<in> set alleles \<and>
                              derived_state m \<in> set alleles) (mutations s)) ss"
  shows "list_all (\<lambda>x. \<not> isl x) (cells ts alleles ss)"
  using assms by (auto simp: cells_def site_cells_def list_all_iff cell_known)

subsection \<open>Success, shape and entries of the count matrix\<close>

lemma covers_known:
  "covers alleles ts \<Longrightarrow>
   list_all (\<lambda>s. list_all (\<lambda>m. effective_parent_state ts s m \<in> set alleles \<and>
                          derived_state m \<in> set alleles) (mutations s)) (sites ts)"
  by (simp add: covers_def list_all_iff)

lemma count_matrix_succeeds:
  assumes "valid_parents ts" and "covers alleles ts"
  shows "\<exists>counts. count_matrix ts alleles = Inr counts"
  using tally_succeeds [OF cells_known [OF assms(1) [unfolded valid_parents_def] covers_known [OF assms(2)]]]
  by (simp add: count_matrix_def count_sites_tally)

lemma count_matrix_square:
  "count_matrix ts alleles = Inr counts \<Longrightarrow> square (length alleles) counts"
  by (auto simp: count_matrix_def count_sites_tally intro: tally_square square_zeros)

lemma zeros_nth: "i < k \<Longrightarrow> j < k \<Longrightarrow> zeros k ! i ! j = 0"
  by (simp add: zeros_def)

lemma count_matrix_nth:
  assumes "count_matrix ts alleles = Inr counts" and "i < length alleles" and "j < length alleles"
  shows "counts ! i ! j = int (count_list (cells ts alleles (sites ts)) (Inr (i, j)))"
  using tally_nth [OF assms(1) [unfolded count_matrix_def count_sites_tally] square_zeros assms(2,3)] assms(2,3)
  by (simp add: zeros_nth)

subsection \<open>The sum of the entries\<close>

lemma sum_list_update_int:
  "i < length xs \<Longrightarrow> sum_list (xs[i := y]) = sum_list xs - xs ! i + (y::int)"
proof (induction xs arbitrary: i)
  case Nil
  then show ?case by simp
next
  case (Cons x xs)
  then show ?case by (cases i) auto
qed

lemma total_incr:
  assumes "square k counts" and "i < k" and "j < k"
  shows "total (incr counts i j) = total counts + 1"
proof -
  from assms have i: "i < length counts" and j: "j < length (counts ! i)"
    by (auto simp: square_def list_all_length)
  have "map sum_list (incr counts i j) = (map sum_list counts)[i := sum_list (counts ! i) + 1]"
    using j by (simp add: incr_def map_update sum_list_update_int)
  then show ?thesis
    using i by (simp add: total_def sum_list_update_int)
qed

lemma tally_total:
  "tally xs counts = Inr counts' \<Longrightarrow> square k counts \<Longrightarrow>
   list_all (\<lambda>x. \<forall>i j. x = Inr (i, j) \<longrightarrow> i < k \<and> j < k) xs \<Longrightarrow>
   total counts' = total counts + int (length xs)"
  by (induction xs counts rule: tally.induct) (auto simp: square_incr total_incr)

lemma total_zeros: "total (zeros k) = 0"
  by (simp add: total_def zeros_def sum_list_replicate)

lemma cells_range:
  "list_all (\<lambda>x. \<forall>i j. x = Inr (i, j) \<longrightarrow> i < length alleles \<and> j < length alleles)
     (cells ts alleles ss)"
  by (auto simp: cells_def site_cells_def list_all_iff dest: cell_range)

lemma length_cells: "length (cells ts alleles ss) = sum_list (map (\<lambda>s. length (mutations s)) ss)"
  by (simp add: cells_def site_cells_def length_concat comp_def)

lemma count_matrix_nonneg:
  assumes "count_matrix ts alleles = Inr counts" and "row \<in> set counts" and "c \<in> set row"
  shows "0 \<le> c"
proof -
  have sq: "square (length alleles) counts"
    using assms(1) by (rule count_matrix_square)
  from assms(2) obtain i where i: "i < length counts" "row = counts ! i"
    by (auto simp: in_set_conv_nth)
  from assms(3) obtain j where j: "j < length row" "c = row ! j"
    by (auto simp: in_set_conv_nth)
  from sq i j have "i < length alleles" "j < length alleles"
    by (auto simp: square_def list_all_length)
  then show ?thesis
    using i j by (simp add: count_matrix_nth [OF assms(1)])
qed

subsection \<open>Exceptions\<close>

lemma count_matrix_error:
  assumes "valid_parents ts" and "count_matrix ts alleles = Inl e"
  shows "e = ValueError"
proof -
  from assms(2) have "Inl e \<in> set (cells ts alleles (sites ts))"
    by (simp add: count_matrix_def count_sites_tally tally_Inl)
  then obtain s m where "s \<in> set (sites ts)" "m \<in> set (mutations s)"
    "cell ts alleles (ancestral_state s) m = Inl e"
    by (auto simp: cells_def site_cells_def)
  moreover from this assms(1) have "valid_parent ts m"
    by (auto simp: valid_parents_def list_all_iff)
  ultimately show ?thesis
    by (auto dest: cell_error)
qed

lemma count_matrix_unknown:
  assumes "valid_parents ts" and "unknown_transition alleles ts"
  shows "count_matrix ts alleles = Inl ValueError"
proof (cases "count_matrix ts alleles")
  case (Inl e)
  with assms(1) show ?thesis
    by (auto dest: count_matrix_error)
next
  case (Inr counts)
  then have all: "list_all (\<lambda>x. \<not> isl x) (cells ts alleles (sites ts))"
    by (simp add: count_matrix_def count_sites_tally tally_Inr)
  from assms(2) obtain s m where sm: "s \<in> set (sites ts)" "m \<in> set (mutations s)"
    "effective_parent_state ts s m \<notin> set alleles \<or> derived_state m \<notin> set alleles"
    by (auto simp: unknown_transition_def list_ex_iff)
  with assms(1) have "valid_parent ts m"
    by (auto simp: valid_parents_def list_all_iff)
  with sm(3) obtain e where "cell ts alleles (ancestral_state s) m = Inl e"
    using cell_unknown by blast
  with sm(1,2) have "Inl e \<in> set (cells ts alleles (sites ts))"
    by (force simp: cells_def site_cells_def)
  with all show ?thesis
    by (auto simp: list_all_iff)
qed

lemma count_matrix_known:
  assumes "valid_parents ts" and "\<not> unknown_transition alleles ts"
  shows "\<exists>counts. count_matrix ts alleles = Inr counts"
proof -
  from assms(2) have
    "list_all (\<lambda>s. list_all (\<lambda>m. effective_parent_state ts s m \<in> set alleles \<and>
                          derived_state m \<in> set alleles) (mutations s)) (sites ts)"
    by (auto simp: unknown_transition_def list_ex_iff list_all_iff)
  from tally_succeeds [OF cells_known [OF assms(1) [unfolded valid_parents_def] this]]
  show ?thesis
    by (simp add: count_matrix_def count_sites_tally)
qed

subsection \<open>Shards and reorderings\<close>

text \<open>
  The cells depend on the tree sequence through its mutation table only, and the tally of
  a list of cells depends on the multiset of the cells only.
\<close>

lemma mutation_table_eq:
  "mutation_table ts' = mutation_table ts \<Longrightarrow> mutation ts' = mutation ts"
  unfolding mutation_def fun_eq_iff by (erule ssubst) (rule allI, rule refl)

lemma cell_table:
  assumes "mutation_table ts' = mutation_table ts"
  shows "cell ts' = cell ts"
proof -
  have "mutation ts' = mutation ts"
    using assms by (rule mutation_table_eq)
  then have "parent_state ts' = parent_state ts"
    unfolding parent_state_def fun_eq_iff by (simp only:) simp
  then show ?thesis
    unfolding cell_def fun_eq_iff by (simp only:) simp
qed

lemma cells_table:
  assumes "mutation_table ts' = mutation_table ts"
  shows "cells ts' = cells ts"
  unfolding cells_def site_cells_def fun_eq_iff by (simp only: cell_table [OF assms]) simp

lemma mset_cells:
  "mset (cells ts alleles ss) =
     (\<Sum>k \<in># mset (map site_key ss). image_mset (cell ts alleles (fst k)) (snd k))"
  by (induction ss) (simp_all add: cells_def site_cells_def site_key_def)

lemma mset_cells_append:
  "mset ss1 + mset ss2 = mset ss \<Longrightarrow>
   mset (cells ts alleles ss) = mset (cells ts alleles ss1) + mset (cells ts alleles ss2)"
proof -
  assume "mset ss1 + mset ss2 = mset ss"
  then have "image_mset site_key (mset ss) = image_mset site_key (mset ss1 + mset ss2)"
    by (rule arg_cong [OF sym])
  then show ?thesis
    by (simp add: mset_cells)
qed

lemma square_ext:
  assumes "square k a" and "square k b"
    and "\<And>i j. i < k \<Longrightarrow> j < k \<Longrightarrow> a ! i ! j = b ! i ! j"
  shows "a = b"
proof (rule nth_equalityI)
  show "length a = length b"
    using assms(1,2) by (simp add: square_def)
next
  fix i assume "i < length a"
  with assms(1,2) have i: "i < k" "length (a ! i) = k" "length (b ! i) = k"
    by (auto simp: square_def list_all_length)
  show "a ! i = b ! i"
  proof (rule nth_equalityI)
    show "length (a ! i) = length (b ! i)"
      using i by simp
  next
    fix j assume "j < length (a ! i)"
    with i show "a ! i ! j = b ! i ! j"
      by (simp add: assms(3))
  qed
qed

lemma square_add_matrix: "square k a \<Longrightarrow> square k b \<Longrightarrow> square k (add_matrix a b)"
  by (auto simp: square_def add_matrix_def list_all_length)

lemma add_matrix_nth:
  "square k a \<Longrightarrow> square k b \<Longrightarrow> i < k \<Longrightarrow> j < k \<Longrightarrow>
   add_matrix a b ! i ! j = a ! i ! j + b ! i ! j"
  by (auto simp: square_def add_matrix_def list_all_length)

lemma add_matrix_commute: "add_matrix a b = add_matrix b a"
proof -
  have "map2 (+) xs ys = map2 (+) ys xs" for xs ys :: "int list"
    by (induction xs ys rule: list_induct2') auto
  then have "map2 (map2 (+)) a b = map2 (map2 (+)) b a" for a b :: matrix
    by (induction a b rule: list_induct2') auto
  then show ?thesis
    by (simp add: add_matrix_def)
qed

lemma count_list_mset: "mset xs = mset ys \<Longrightarrow> count_list xs y = count_list ys y"
proof -
  assume "mset xs = mset ys"
  then have "count (mset xs) y = count (mset ys) y"
    by (rule arg_cong)
  then show ?thesis
    by (simp only: count_mset)
qed

lemma tally_mset:
  assumes "mset xs = mset ys" and "square k counts" and "tally xs counts = Inr a"
  shows "tally ys counts = Inr a"
proof -
  from assms(3) have "list_all (\<lambda>x. \<not> isl x) xs"
    by (rule tally_Inr)
  moreover from assms(1) have "set xs = set ys"
    by (rule mset_eq_setD)
  ultimately have "list_all (\<lambda>x. \<not> isl x) ys"
    by (simp add: list_all_iff)
  then obtain b where b: "tally ys counts = Inr b"
    using tally_succeeds by blast
  have "b = a"
  proof (rule square_ext)
    show "square k b" using b assms(2) by (rule tally_square)
    show "square k a" using assms(3,2) by (rule tally_square)
    fix i j assume "i < k" "j < k"
    then show "b ! i ! j = a ! i ! j"
      using tally_nth [OF b assms(2)] tally_nth [OF assms(3,2)] count_list_mset [OF assms(1)]
      by simp
  qed
  with b show ?thesis by simp
qed

lemma tally_shards:
  assumes "mset xs = mset ys + mset zs" and "tally xs (zeros k) = Inr a"
  shows "\<exists>b c. tally ys (zeros k) = Inr b \<and> tally zs (zeros k) = Inr c \<and> a = add_matrix b c"
proof -
  from assms(2) have "list_all (\<lambda>x. \<not> isl x) xs"
    by (rule tally_Inr)
  moreover from assms(1) have "set xs = set (ys @ zs)"
    by (intro mset_eq_setD) simp
  ultimately have "list_all (\<lambda>x. \<not> isl x) ys" "list_all (\<lambda>x. \<not> isl x) zs"
    by (auto simp: list_all_iff)
  then obtain b c where b: "tally ys (zeros k) = Inr b" and c: "tally zs (zeros k) = Inr c"
    using tally_succeeds by blast
  have sq: "square k a" "square k b" "square k c"
    using assms(2) b c by (auto intro: tally_square square_zeros)
  have count: "count_list xs y = count_list ys y + count_list zs y" for y
  proof -
    from assms(1) have "mset xs = mset (ys @ zs)" by simp
    then have "count_list xs y = count_list (ys @ zs) y"
      by (rule count_list_mset)
    then show ?thesis by simp
  qed
  have "a = add_matrix b c"
  proof (rule square_ext)
    show "square k a" by (rule sq)
    show "square k (add_matrix b c)" using sq by (simp add: square_add_matrix)
    fix i j assume "i < k" "j < k"
    then show "a ! i ! j = add_matrix b c ! i ! j"
      using tally_nth [OF assms(2) square_zeros] tally_nth [OF b square_zeros]
        tally_nth [OF c square_zeros] sq
      by (simp add: add_matrix_nth count zeros_nth)
  qed
  with b c show ?thesis by blast
qed

lemma valid_parents_reordering:
  assumes "reordering ts ts'" and "valid_parents ts"
  shows "valid_parents ts'"
proof -
  from assms(1) have t: "mutation_table ts' = mutation_table ts"
    and k: "mset (map site_key (sites ts')) = mset (map site_key (sites ts))"
    by (simp_all add: reordering_def)
  from k have "set (map site_key (sites ts')) = set (map site_key (sites ts))"
    by (rule mset_eq_setD)
  then have sub: "site_key ` set (sites ts') \<subseteq> site_key ` set (sites ts)"
    by simp
  have "valid_parent ts' m" if "s' \<in> set (sites ts')" "m \<in> set (mutations s')" for s' m
  proof -
    from that(1) sub obtain s where s: "s \<in> set (sites ts)" "site_key s' = site_key s"
      by blast
    then have "mset (mutations s') = mset (mutations s)"
      by (simp add: site_key_def)
    then have "set (mutations s') = set (mutations s)"
      by (rule mset_eq_setD)
    with that(2) s(1) assms(2) have "valid_parent ts m"
      by (auto simp: valid_parents_def list_all_iff)
    then show ?thesis
      by (simp only: valid_parent_def t)
  qed
  then show ?thesis
    by (auto simp: valid_parents_def list_all_iff)
qed

lemma reordering_cells:
  assumes "reordering ts ts'"
  shows "mset (cells ts' alleles (sites ts')) = mset (cells ts alleles (sites ts))"
proof -
  from assms have t: "mutation_table ts' = mutation_table ts"
    and k: "mset (map site_key (sites ts')) = mset (map site_key (sites ts))"
    by (simp_all add: reordering_def)
  show ?thesis
    by (simp only: mset_cells k cell_table [OF t])
qed

subsection \<open>Printing\<close>

lemma print_rows_concat:
  "print_rows counts rows out =
     out @ concat (map (\<lambda>(j, a). a @ tab @ '' '' @ join tab (map str (counts ! j)) @ newline) rows)"
  by (induction rows arbitrary: out) (auto simp: print_def)

lemma enumerate_lines:
  "map (\<lambda>(j, a). f j a) (enumerate 0 xs) = map (\<lambda>j. f j (xs ! j)) [0..<length xs]"
  by (rule nth_equalityI) (simp_all add: nth_enumerate_eq)

lemma print_table:
  "print_rows counts (enumerate 0 alleles) (print out tab (join tab alleles)) =
     out @ count_table alleles counts"
proof -
  have "map (\<lambda>(j, a). a @ tab @ '' '' @ join tab (map str (counts ! j)) @ newline)
          (enumerate 0 alleles) =
        map (\<lambda>j. row_line alleles counts j @ newline) [0..<length alleles]"
    unfolding row_line_def using enumerate_lines [of "\<lambda>j a. a @ tab @ '' '' @ join tab (map str (counts ! j)) @ newline" alleles]
    by simp
  then show ?thesis
    by (simp add: print_rows_concat count_table_def header_line_def print_def comp_def)
qed

lemma scenario_table:
  "count_table ACGT [[0, 1, 0, 0], [0, 0, 0, 0], [0, 0, 0, 1], [1, 0, 0, 0]] =
     tab @ '' A'' @ tab @ ''C'' @ tab @ ''G'' @ tab @ ''T'' @ newline @
     ''A'' @ tab @ '' 0'' @ tab @ ''1'' @ tab @ ''0'' @ tab @ ''0'' @ newline @
     ''C'' @ tab @ '' 0'' @ tab @ ''0'' @ tab @ ''0'' @ tab @ ''0'' @ newline @
     ''G'' @ tab @ '' 0'' @ tab @ ''0'' @ tab @ ''0'' @ tab @ ''1'' @ newline @
     ''T'' @ tab @ '' 1'' @ tab @ ''0'' @ tab @ ''0'' @ tab @ ''0'' @ newline"
  by (simp add: count_table_def header_line_def row_line_def ACGT_def str_def str_nat.simps
      digit_def upt_rec)

section \<open>The claims\<close>

subsection \<open>The entries of the count matrix\<close>

text \<open>
  C1. For a tree sequence with valid parents and a list of distinct alleles that contains
  every observed state, the loops of \<open>count_transitions\<close> end with a \<open>k \<times> k\<close> matrix, \<open>k\<close>
  the number of alleles, whose entry \<open>(i, j)\<close> is the number of mutations, over all sites,
  whose effective parent state is allele \<open>i\<close> and whose derived state is allele \<open>j\<close>.
  The alleles of a mutation model are distinct; \<open>list.index\<close> would count a transition
  between repeated alleles at the first occurrence only.
\<close>

theorem count_matrix_entries:
  assumes "distinct alleles" and "valid_parents ts" and "covers alleles ts"
  shows "\<exists>counts. count_matrix ts alleles = Inr counts \<and>
           length counts = length alleles \<and>
           (\<forall>row \<in> set counts. length row = length alleles) \<and>
           (\<forall>i < length alleles. \<forall>j < length alleles.
              counts ! i ! j = int (transition_count ts (alleles ! i) (alleles ! j)))"
proof -
  from assms(2,3) obtain counts where c: "count_matrix ts alleles = Inr counts"
    using count_matrix_succeeds by blast
  have "square (length alleles) counts"
    using c by (rule count_matrix_square)
  then have shape: "length counts = length alleles" "\<forall>row \<in> set counts. length row = length alleles"
    by (simp_all add: square_def list_all_iff)
  have "counts ! i ! j = int (transition_count ts (alleles ! i) (alleles ! j))"
    if "i < length alleles" "j < length alleles" for i j
    using that assms(1,2)
    by (simp add: count_matrix_nth [OF c] count_list_cells valid_parents_def transition_count_def)
  with c shape show ?thesis by blast
qed

theorem count_matrix_entries_witness:
  "distinct ACGT \<and> valid_parents scenario \<and> covers ACGT scenario \<and>
   (\<exists>counts. count_matrix scenario ACGT = Inr counts \<and> length counts = 4 \<and>
      counts ! 2 ! 3 = int (transition_count scenario ''G'' ''T'')) \<and>
   transition_count scenario ''G'' ''T'' = 1"
proof -
  have d: "distinct ACGT"
    by (simp add: ACGT_def)
  have v: "valid_parents scenario"
    by (simp add: valid_parents_def valid_parent_def scenario_def scenario_mutations_def NULL_def)
  have c: "covers ACGT scenario"
    by (simp add: covers_def effective_parent_state_def scenario_def scenario_mutations_def
        NULL_def ACGT_def)
  have t: "transition_count scenario ''G'' ''T'' = 1"
    by (simp add: transition_count_def effective_parent_state_def scenario_def
        scenario_mutations_def NULL_def)
  from count_matrix_entries [OF d v c] obtain counts where
    "count_matrix scenario ACGT = Inr counts" "length counts = length ACGT"
    "\<forall>i < length ACGT. \<forall>j < length ACGT.
       counts ! i ! j = int (transition_count scenario (ACGT ! i) (ACGT ! j))"
    by blast
  moreover from this(3) have "counts ! 2 ! 3 = int (transition_count scenario (ACGT ! 2) (ACGT ! 3))"
    by (simp add: ACGT_def)
  ultimately show ?thesis
    using d v c t by (auto simp: ACGT_def)
qed

text \<open>
  C2. On the scenario of the specification (alleles A, C, G, T; a site with ancestral
  state A and one parentless mutation to C; a site with ancestral state G, a parentless
  mutation to T and a mutation to A whose parent is the first; a site with ancestral state
  C and no mutation) the count matrix has (A,C) = 1, (G,T) = 1, (T,A) = 1 and 0 in every
  other entry. The root distribution and the transition matrix of the model are not read
  by the counting code.
\<close>

theorem count_matrix_scenario:
  "count_matrix scenario ACGT =
     Inr [[0, 1, 0, 0],
          [0, 0, 0, 0],
          [0, 0, 0, 1],
          [1, 0, 0, 0]]"
  by (simp add: count_matrix_def scenario_def scenario_mutations_def ACGT_def zeros_def
      parent_state_def mutation_def NULL_def incr_def numeral_eq_Suc)

subsection \<open>Shards and visiting order\<close>

text \<open>
  C3. When the sites of a tree sequence are divided between two shards, and the alphabet
  contains every observed state, the elementwise sum of the count matrices of the two
  shards is the count matrix of the whole tree sequence, and the sum does not depend on
  the order in which the two matrices are merged.
\<close>

theorem count_matrix_shards:
  assumes "shards ts ts1 ts2" and "valid_parents ts" and "covers alleles ts"
  shows "\<exists>counts1 counts2.
           count_matrix ts1 alleles = Inr counts1 \<and> count_matrix ts2 alleles = Inr counts2 \<and>
           count_matrix ts alleles = Inr (add_matrix counts1 counts2) \<and>
           add_matrix counts1 counts2 = add_matrix counts2 counts1"
proof -
  from assms(2,3) obtain counts where c: "count_matrix ts alleles = Inr counts"
    using count_matrix_succeeds by blast
  from assms(1) have t: "mutation_table ts1 = mutation_table ts" "mutation_table ts2 = mutation_table ts"
    and m: "mset (sites ts1) + mset (sites ts2) = mset (sites ts)"
    by (simp_all add: shards_def)
  have "mset (cells ts alleles (sites ts)) =
        mset (cells ts1 alleles (sites ts1)) + mset (cells ts2 alleles (sites ts2))"
    using mset_cells_append [OF m] by (simp only: cells_table [OF t(1)] cells_table [OF t(2)])
  from tally_shards [OF this] c show ?thesis
    by (auto simp: count_matrix_def count_sites_tally add_matrix_commute)
qed

theorem count_matrix_shards_witness:
  "shards scenario scenario_shard1 scenario_shard2 \<and> valid_parents scenario \<and>
   covers ACGT scenario \<and>
   (\<exists>counts1 counts2.
      count_matrix scenario_shard1 ACGT = Inr counts1 \<and>
      count_matrix scenario_shard2 ACGT = Inr counts2 \<and>
      count_matrix scenario ACGT = Inr (add_matrix counts1 counts2))"
proof -
  have s: "shards scenario scenario_shard1 scenario_shard2"
    by (simp add: shards_def scenario_shard1_def scenario_shard2_def scenario_def)
  have v: "valid_parents scenario"
    by (simp add: valid_parents_def valid_parent_def scenario_def scenario_mutations_def NULL_def)
  have c: "covers ACGT scenario"
    by (simp add: covers_def effective_parent_state_def scenario_def scenario_mutations_def
        NULL_def ACGT_def)
  from count_matrix_shards [OF s v c] s v c show ?thesis
    by blast
qed

text \<open>
  C8. The count matrix is a function of its inputs, and it does not depend on the order
  in which the sites are visited, nor on the order in which the mutations of a site are
  visited: a reordered tree sequence gives a matrix exactly when the original one does,
  and the same one; with valid parents the two results agree also when they are an
  exception.
\<close>

theorem count_matrix_reordering:
  assumes "reordering ts ts'"
  shows "(\<forall>counts. count_matrix ts' alleles = Inr counts \<longleftrightarrow> count_matrix ts alleles = Inr counts) \<and>
         (valid_parents ts \<longrightarrow> count_matrix ts' alleles = count_matrix ts alleles)"
proof -
  have m: "mset (cells ts' alleles (sites ts')) = mset (cells ts alleles (sites ts))"
    using assms by (rule reordering_cells)
  have iff: "count_matrix ts' alleles = Inr counts \<longleftrightarrow> count_matrix ts alleles = Inr counts"
    for counts
    unfolding count_matrix_def count_sites_tally
    using tally_mset [OF m square_zeros] tally_mset [OF m [symmetric] square_zeros]
    by blast
  have "count_matrix ts' alleles = count_matrix ts alleles" if v: "valid_parents ts"
  proof (cases "count_matrix ts alleles")
    case (Inr c)
    with iff [of c] show ?thesis by simp
  next
    case (Inl e)
    with v have e: "e = ValueError"
      by (auto dest: count_matrix_error)
    show ?thesis
    proof (cases "count_matrix ts' alleles")
      case (Inr c)
      with iff [of c] \<open>count_matrix ts alleles = Inl e\<close> show ?thesis by simp
    next
      case (Inl e')
      with valid_parents_reordering [OF assms v] have "e' = ValueError"
        by (auto dest: count_matrix_error)
      with Inl e \<open>count_matrix ts alleles = Inl e\<close> show ?thesis by simp
    qed
  qed
  with iff show ?thesis by blast
qed

theorem count_matrix_reordering_witness:
  "reordering scenario scenario_reordered \<and> valid_parents scenario \<and>
   count_matrix scenario_reordered ACGT = count_matrix scenario ACGT"
proof -
  have r: "reordering scenario scenario_reordered"
    by (simp add: reordering_def scenario_reordered_def scenario_def site_key_def
        scenario_mutations_def)
  have v: "valid_parents scenario"
    by (simp add: valid_parents_def valid_parent_def scenario_def scenario_mutations_def NULL_def)
  from count_matrix_reordering [OF r, of ACGT] r v show ?thesis
    by blast
qed

subsection \<open>Unknown alleles\<close>

text \<open>
  C4, as amended. For a tree sequence with valid parents the loops raise \<open>ValueError\<close>
  (the \<open>UnknownAlleleError\<close> of the specification) exactly when some mutation has an
  effective parent state or a derived state that is not in the alphabet, and end with a
  matrix otherwise. The ancestral state of a site is looked up only for a mutation
  without parent: a site with ancestral state N and a parentless mutation to C fails
  against A, C, G, T.
\<close>

theorem count_matrix_fails_iff:
  assumes "valid_parents ts"
  shows "(count_matrix ts alleles = Inl ValueError) = unknown_transition alleles ts \<and>
         (\<exists>counts. count_matrix ts alleles = Inr counts) = (\<not> unknown_transition alleles ts)"
  using count_matrix_unknown [OF assms, of alleles] count_matrix_known [OF assms, of alleles]
  by (cases "unknown_transition alleles ts") auto

theorem count_matrix_fails_iff_witness:
  "valid_parents mutated_N \<and> unknown_transition ACGT mutated_N \<and>
   count_matrix mutated_N ACGT = Inl ValueError"
proof -
  have v: "valid_parents mutated_N"
    by (simp add: valid_parents_def valid_parent_def mutated_N_def NULL_def)
  have u: "unknown_transition ACGT mutated_N"
    by (simp add: unknown_transition_def effective_parent_state_def mutated_N_def NULL_def ACGT_def)
  from count_matrix_fails_iff [OF v, of ACGT] u v show ?thesis
    by simp
qed

text \<open>
  C4 as stated fails: a site whose ancestral state N is not in the alphabet, and which
  has no mutation, is counted without any exception, and the matrix is zero.
\<close>

theorem unmutated_N_counterexample:
  "\<not> covers ACGT unmutated_N \<and>
   count_matrix unmutated_N ACGT =
     Inr [[0, 0, 0, 0], [0, 0, 0, 0], [0, 0, 0, 0], [0, 0, 0, 0]]"
  by (simp add: covers_def count_matrix_def unmutated_N_def ACGT_def zeros_def numeral_eq_Suc)

subsection \<open>Effects\<close>

text \<open>
  C5, as amended. \<open>count_transitions\<close> leaves the tree sequence and the alleles as they
  were and returns \<open>None\<close>, not a matrix; its only effect is on standard output. When the
  loops raise an exception, the call raises it and nothing is printed. Otherwise the call
  appends the table of the count matrix to what was printed before: the header line and,
  for each allele in order, the line of its row.
\<close>

theorem count_transitions_effect:
  assumes "count_transitions w = (r, w')"
  shows "ts_object w' = ts_object w \<and> alleles_object w' = alleles_object w \<and>
         (case count_matrix (ts_object w) (alleles_object w) of
            Inl e \<Rightarrow> r = Inl e \<and> stdout w' = stdout w
          | Inr counts \<Rightarrow>
              r = Inr None \<and>
              stdout w' = stdout w @ count_table (alleles_object w) counts)"
  using assms
  by (auto simp: count_transitions_def print_table split: sum.splits)

theorem count_transitions_effect_witness:
  "count_transitions scenario_world =
     (Inr None,
      scenario_world\<lparr>stdout := ''before'' @
        tab @ '' A'' @ tab @ ''C'' @ tab @ ''G'' @ tab @ ''T'' @ newline @
        ''A'' @ tab @ '' 0'' @ tab @ ''1'' @ tab @ ''0'' @ tab @ ''0'' @ newline @
        ''C'' @ tab @ '' 0'' @ tab @ ''0'' @ tab @ ''0'' @ tab @ ''0'' @ newline @
        ''G'' @ tab @ '' 0'' @ tab @ ''0'' @ tab @ ''0'' @ tab @ ''1'' @ newline @
        ''T'' @ tab @ '' 1'' @ tab @ ''0'' @ tab @ ''0'' @ tab @ ''0'' @ newline\<rparr>) \<and>
   count_transitions mutated_N_world = (Inl ValueError, mutated_N_world)"
proof -
  obtain r w' where run: "count_transitions scenario_world = (r, w')"
    by (cases "count_transitions scenario_world")
  have m: "count_matrix (ts_object scenario_world) (alleles_object scenario_world) =
      Inr [[0, 1, 0, 0], [0, 0, 0, 0], [0, 0, 0, 1], [1, 0, 0, 0]]"
    by (simp add: scenario_world_def count_matrix_def scenario_def scenario_mutations_def
        ACGT_def zeros_def parent_state_def mutation_def NULL_def incr_def numeral_eq_Suc)
  from count_transitions_effect [OF run] m
  have "ts_object w' = scenario" "alleles_object w' = ACGT" "r = Inr None"
    "stdout w' = ''before'' @
       count_table ACGT [[0, 1, 0, 0], [0, 0, 0, 0], [0, 0, 0, 1], [1, 0, 0, 0]]"
    by (simp_all add: scenario_world_def)
  then have "(r, w') = (Inr None, scenario_world\<lparr>stdout := ''before'' @
       count_table ACGT [[0, 1, 0, 0], [0, 0, 0, 0], [0, 0, 0, 1], [1, 0, 0, 0]]\<rparr>)"
    by (simp add: scenario_world_def)
  with run have first: "count_transitions scenario_world =
     (Inr None, scenario_world\<lparr>stdout := ''before'' @
       count_table ACGT [[0, 1, 0, 0], [0, 0, 0, 0], [0, 0, 0, 1], [1, 0, 0, 0]]\<rparr>)"
    by simp
  obtain r2 w2 where run2: "count_transitions mutated_N_world = (r2, w2)"
    by (cases "count_transitions mutated_N_world")
  have m2: "count_matrix (ts_object mutated_N_world) (alleles_object mutated_N_world) =
      Inl ValueError"
    by (simp add: mutated_N_world_def count_matrix_def mutated_N_def ACGT_def zeros_def
        parent_state_def NULL_def)
  from count_transitions_effect [OF run2] m2
  have "ts_object w2 = mutated_N" "alleles_object w2 = ACGT" "r2 = Inl ValueError"
    "stdout w2 = ''before''"
    by (simp_all add: mutated_N_world_def)
  then have "(r2, w2) = (Inl ValueError, mutated_N_world)"
    by (simp add: mutated_N_world_def)
  with run2 first show ?thesis
    by (simp add: scenario_table)
qed

text \<open>
  C5 as stated fails: the function has an effect besides its result, and its result is
  not the matrix. On a tree sequence without sites and the single allele A, the matrix is
  \<open>[[0]]\<close>, the call returns \<open>None\<close>, and two lines are added to an empty standard output.
\<close>

theorem count_transitions_prints_counterexample:
  "count_matrix no_sites [''A''] = Inr [[0]] \<and>
   count_transitions no_sites_world =
     (Inr None,
      no_sites_world\<lparr>stdout := tab @ '' A'' @ newline @ ''A'' @ tab @ '' 0'' @ newline\<rparr>) \<and>
   tab @ '' A'' @ newline @ ''A'' @ tab @ '' 0'' @ newline \<noteq> stdout no_sites_world"
  by (simp add: count_transitions_def no_sites_world_def count_matrix_def no_sites_def zeros_def
      print_def str_def str_nat.simps digit_def tab_def)

subsection \<open>Totals\<close>

text \<open>
  C9. For a tree sequence with valid parents and an alphabet that contains every observed
  state, the entries of the count matrix add up to the number of mutations of all sites,
  and no entry is negative.
\<close>

theorem count_matrix_total:
  assumes "valid_parents ts" and "covers alleles ts"
  shows "\<exists>counts. count_matrix ts alleles = Inr counts \<and>
           sum_list (map sum_list counts) = int (num_mutations ts) \<and>
           (\<forall>row \<in> set counts. \<forall>c \<in> set row. 0 \<le> c)"
proof -
  from assms obtain counts where c: "count_matrix ts alleles = Inr counts"
    using count_matrix_succeeds by blast
  have "total counts = total (zeros (length alleles)) + int (length (cells ts alleles (sites ts)))"
    using c unfolding count_matrix_def count_sites_tally
    by (rule tally_total) (rule square_zeros, rule cells_range)
  then have "sum_list (map sum_list counts) = int (num_mutations ts)"
    using total_zeros [of "length alleles"] by (simp add: length_cells num_mutations_def total_def)
  with c show ?thesis
    by (blast intro: count_matrix_nonneg)
qed

theorem count_matrix_total_witness:
  "valid_parents scenario \<and> covers ACGT scenario \<and> num_mutations scenario = 3 \<and>
   (\<exists>counts. count_matrix scenario ACGT = Inr counts \<and> sum_list (map sum_list counts) = 3)"
proof -
  have v: "valid_parents scenario"
    by (simp add: valid_parents_def valid_parent_def scenario_def scenario_mutations_def NULL_def)
  have c: "covers ACGT scenario"
    by (simp add: covers_def effective_parent_state_def scenario_def scenario_mutations_def
        NULL_def ACGT_def)
  have n: "num_mutations scenario = 3"
    by (simp add: num_mutations_def scenario_def)
  from count_matrix_total [OF v c] n v c show ?thesis
    by auto
qed

subsection \<open>Nearest-neighbour proportions\<close>

text \<open>
  C10. \<open>find_nearest_neighbour_populations\<close> returns \<open>(0, 0)\<close> when the focal sample has no
  parent in the tree. When the parent exists and has a leaf other than the focal sample,
  it returns two proportions that are not negative and whose sum is 1.
\<close>

theorem find_nearest_neighbour_populations_proportions:
  "(tree_parent t focal_sample = -1 \<longrightarrow>
      find_nearest_neighbour_populations population t focal_sample = Inr (0, 0)) \<and>
   (tree_parent t focal_sample \<noteq> -1 \<and>
    (\<exists>c \<in> set (leaves t (tree_parent t focal_sample)). c \<noteq> focal_sample) \<longrightarrow>
      (\<exists>prop_pop_0 prop_pop_1.
         find_nearest_neighbour_populations population t focal_sample =
           Inr (prop_pop_0, prop_pop_1) \<and>
         0 \<le> prop_pop_0 \<and> 0 \<le> prop_pop_1 \<and> prop_pop_0 + prop_pop_1 = 1))"
proof (intro conjI impI)
  assume "tree_parent t focal_sample = -1"
  then show "find_nearest_neighbour_populations population t focal_sample = Inr (0, 0)"
    by (simp add: find_nearest_neighbour_populations_def)
next
  let ?rel = "map population (filter (\<lambda>c. c \<noteq> focal_sample) (leaves t (tree_parent t focal_sample)))"
  let ?c0 = "int (length (filter (\<lambda>pop. pop = 0) ?rel))"
  let ?n = "length ?rel"
  assume a: "tree_parent t focal_sample \<noteq> -1 \<and>
    (\<exists>c \<in> set (leaves t (tree_parent t focal_sample)). c \<noteq> focal_sample)"
  then have "filter (\<lambda>c. c \<noteq> focal_sample) (leaves t (tree_parent t focal_sample)) \<noteq> []"
    by (auto simp: filter_empty_conv)
  then have n: "0 < ?n"
    by simp
  have le: "?c0 \<le> int ?n"
    by (simp only: of_nat_le_iff length_filter_le)
  have r: "find_nearest_neighbour_populations population t focal_sample =
      Inr (of_int ?c0 / of_nat ?n, of_int (int ?n - ?c0) / of_nat ?n)"
    using a n by (simp add: find_nearest_neighbour_populations_def Let_def)
  have "(0::rat) \<le> of_int ?c0 / of_nat ?n"
    by simp
  moreover have "(0::rat) \<le> of_int (int ?n - ?c0) / of_nat ?n"
    using le by (simp only: zero_le_divide_iff of_nat_0_le_iff of_int_0_le_iff) simp
  moreover have "(of_int ?c0 / of_nat ?n + of_int (int ?n - ?c0) / of_nat ?n :: rat) = 1"
    using n by (simp add: add_divide_distrib [symmetric])
  ultimately show "\<exists>prop_pop_0 prop_pop_1.
         find_nearest_neighbour_populations population t focal_sample =
           Inr (prop_pop_0, prop_pop_1) \<and>
         0 \<le> prop_pop_0 \<and> 0 \<le> prop_pop_1 \<and> prop_pop_0 + prop_pop_1 = 1"
    using r by blast
qed

theorem find_nearest_neighbour_populations_proportions_witness:
  "tree_parent cherry 3 = -1 \<and>
   find_nearest_neighbour_populations cherry_population cherry 3 = Inr (0, 0) \<and>
   tree_parent cherry 0 = 3 \<and> leaves cherry 3 = [0, 1, 2] \<and>
   (\<exists>prop_pop_0 prop_pop_1.
      find_nearest_neighbour_populations cherry_population cherry 0 =
        Inr (prop_pop_0, prop_pop_1) \<and>
      0 \<le> prop_pop_0 \<and> 0 \<le> prop_pop_1 \<and> prop_pop_0 + prop_pop_1 = 1)"
proof -
  have root: "tree_parent cherry 3 = -1"
    by (simp add: cherry_def)
  have inner: "tree_parent cherry 0 \<noteq> -1 \<and>
    (\<exists>c \<in> set (leaves cherry (tree_parent cherry 0)). c \<noteq> 0)"
    by (simp add: cherry_def)
  have shape: "tree_parent cherry 0 = 3" "leaves cherry 3 = [0, 1, 2]"
    by (simp_all add: cherry_def)
  from find_nearest_neighbour_populations_proportions [of cherry 3 cherry_population] root
  have "find_nearest_neighbour_populations cherry_population cherry 3 = Inr (0, 0)"
    by blast
  moreover
  from find_nearest_neighbour_populations_proportions [of cherry 0 cherry_population] inner
  have "\<exists>prop_pop_0 prop_pop_1.
      find_nearest_neighbour_populations cherry_population cherry 0 =
        Inr (prop_pop_0, prop_pop_1) \<and>
      0 \<le> prop_pop_0 \<and> 0 \<le> prop_pop_1 \<and> prop_pop_0 + prop_pop_1 = 1"
    by blast
  ultimately show ?thesis
    using root shape by blast
qed

subsection \<open>The model constructor and the validator of the specification\<close>

text \<open>
  C6, against the constructor modelled from sections 3 and 4.1 of the specification (the
  repository has none). The constructor fails with \<open>ModelValidationError\<close> exactly when an
  invariant of section 3 is violated (a length mismatch among the alleles, the root distribution and the
  rows and columns of the transition matrix; a negative probability; a row of the
  transition matrix, or the root distribution, that does not sum to 1 within 1e-9), and a
  model that it returns satisfies the invariants and holds the three values it was given.
\<close>

theorem construct_validates:
  "(construct alleles root_dist matrix_rows = Inl ModelValidationError) =
     (\<not> model_invariant \<lparr>model_alleles = alleles, root_distribution = root_dist,
                          transition_matrix = matrix_rows\<rparr>) \<and>
   (\<forall>m. construct alleles root_dist matrix_rows = Inr m \<longrightarrow>
        model_invariant m \<and>
        m = \<lparr>model_alleles = alleles, root_distribution = root_dist,
             transition_matrix = matrix_rows\<rparr>)"
  by (auto simp: construct_def model_invariant_def list_all_iff list_ex_iff not_le not_less)

theorem construct_validates_witness:
  "construct ACGT (root_distribution jukes_cantor) (transition_matrix jukes_cantor) =
     Inr jukes_cantor \<and>
   model_invariant jukes_cantor \<and>
   \<not> model_invariant \<lparr>model_alleles = [''0'', ''1''], root_distribution = [1/2, 1/2],
                       transition_matrix = [[0, 9/10], [1, 0]]\<rparr> \<and>
   construct [''0'', ''1''] [1/2, 1/2] [[0, 9/10], [1, 0]] = Inl ModelValidationError"
proof -
  have c: "construct ACGT (root_distribution jukes_cantor) (transition_matrix jukes_cantor) =
      Inr jukes_cantor"
    by (simp add: construct_def jukes_cantor_def ACGT_def sums_to_one_def)
  have n: "\<not> model_invariant \<lparr>model_alleles = [''0'', ''1''], root_distribution = [1/2, 1/2],
                       transition_matrix = [[0, 9/10], [1, 0]]\<rparr>"
    by (simp add: model_invariant_def sums_to_one_def)
  from construct_validates [of ACGT "root_distribution jukes_cantor" "transition_matrix jukes_cantor"] c
  have "model_invariant jukes_cantor"
    by blast
  moreover from construct_validates [of "[''0'', ''1'']" "[1/2, 1/2]" "[[0, 9/10], [1, 0]]"] n
  have "construct [''0'', ''1''] [1/2, 1/2] [[0, 9/10], [1, 0]] = Inl ModelValidationError"
    by blast
  ultimately show ?thesis
    using c n by blast
qed

text \<open>
  C7, against the validator modelled from section 4.3 of the specification (the repository
  has none). For a count matrix and a model of the same alphabet size, \<open>check_conformance\<close>
  raises no error, whatever the counts: it returns one report for each row, and a row whose total
  is 0 is flagged \<open>insufficient_data\<close> and is not marked as failed. On the scenario the rows
  A, G and T do not conform at tolerance 1/20, which is reported and not raised, and row C
  is flagged.
\<close>

theorem check_conformance_reports:
  assumes "model_invariant model"
    and "length counts = length (model_alleles model)"
    and "list_all (\<lambda>row. length row = length (model_alleles model)) counts"
  shows "\<exists>report. check_conformance counts model tolerance = Inr report \<and>
           length report = length counts \<and>
           (\<forall>i < length counts.
              row_index (report ! i) = i \<and>
              (sum_list (counts ! i) = 0 \<longrightarrow>
                 insufficient_data (report ! i) \<and> pass (report ! i) \<noteq> Some False) \<and>
              (sum_list (counts ! i) \<noteq> 0 \<longrightarrow> \<not> insufficient_data (report ! i)))"
  using assms(2,3)
  by (auto simp: check_conformance_def check_row_def Let_def list_all_iff list_ex_iff)

theorem check_conformance_reports_witness:
  "model_invariant jukes_cantor \<and> length scenario_counts = length (model_alleles jukes_cantor) \<and>
   sum_list (scenario_counts ! 1) = 0 \<and>
   (\<exists>report. check_conformance scenario_counts jukes_cantor (1/20) = Inr report \<and>
      insufficient_data (report ! 1) \<and> pass (report ! 1) \<noteq> Some False \<and>
      \<not> insufficient_data (report ! 0)) \<and>
   check_conformance scenario_counts jukes_cantor (1/20) =
     Inr [\<lparr>row_index = 0, statistic = Some (2/3), pass = Some False, insufficient_data = False\<rparr>,
          \<lparr>row_index = 1, statistic = None, pass = None, insufficient_data = True\<rparr>,
          \<lparr>row_index = 2, statistic = Some (2/3), pass = Some False, insufficient_data = False\<rparr>,
          \<lparr>row_index = 3, statistic = Some (2/3), pass = Some False, insufficient_data = False\<rparr>]"
proof -
  have m: "model_invariant jukes_cantor"
    by (simp add: model_invariant_def jukes_cantor_def ACGT_def sums_to_one_def)
  have l: "length scenario_counts = length (model_alleles jukes_cantor)"
    by (simp add: scenario_counts_def jukes_cantor_def ACGT_def)
  have r: "list_all (\<lambda>row. length row = length (model_alleles jukes_cantor)) scenario_counts"
    by (simp add: scenario_counts_def jukes_cantor_def ACGT_def)
  have z: "sum_list (scenario_counts ! 1) = 0" "sum_list (scenario_counts ! 0) \<noteq> 0"
    by (simp_all add: scenario_counts_def)
  have v: "check_conformance scenario_counts jukes_cantor (1/20) =
     Inr [\<lparr>row_index = 0, statistic = Some (2/3), pass = Some False, insufficient_data = False\<rparr>,
          \<lparr>row_index = 1, statistic = None, pass = None, insufficient_data = True\<rparr>,
          \<lparr>row_index = 2, statistic = Some (2/3), pass = Some False, insufficient_data = False\<rparr>,
          \<lparr>row_index = 3, statistic = Some (2/3), pass = Some False, insufficient_data = False\<rparr>]"
    by (simp add: check_conformance_def check_row_def max_abs_deviation_def scenario_counts_def
        jukes_cantor_def ACGT_def upt_rec)
  from check_conformance_reports [OF m l r, of "1/20"] obtain report where
    rep: "check_conformance scenario_counts jukes_cantor (1/20) = Inr report"
    and rows: "\<forall>i < length scenario_counts.
              row_index (report ! i) = i \<and>
              (sum_list (scenario_counts ! i) = 0 \<longrightarrow>
                 insufficient_data (report ! i) \<and> pass (report ! i) \<noteq> Some False) \<and>
              (sum_list (scenario_counts ! i) \<noteq> 0 \<longrightarrow> \<not> insufficient_data (report ! i))"
    by blast
  have "(1::nat) < length scenario_counts" "(0::nat) < length scenario_counts"
    by (simp_all add: scenario_counts_def)
  with rows z have "insufficient_data (report ! 1) \<and> pass (report ! 1) \<noteq> Some False \<and>
      \<not> insufficient_data (report ! 0)"
    by blast
  with rep m l z(1) v show ?thesis
    by blast
qed

end
